theory Spec2Isabelle
  imports Main "HOL-Library.AList" "HOL-Library.Word"
begin

section \<open>The content cache and ingestion manager (ContentService)\<close>

text \<open>
  A shallow embedding of \<^verbatim>\<open>ContentService\<close> (src/types/src/storage.ts, lines 200-438).
  The service's fields, the cache index it owns a reference to and the files of the data
  directory are one explicit state, passed through every operation. A JavaScript exception
  (or a rejected promise of an \<^verbatim>\<open>async\<close> method) is the outcome \<open>Threw\<close>, carrying the
  state reached when it was raised. The model is sequential: one operation runs to its end
  before the next starts.
\<close>

subsection \<open>The file system\<close>

type_synonym bytes = "8 word list"

text \<open>
  Files by full path; the data directory is flat, its entries are the files directly
  under it. JavaScript numbers holding sizes are integers here.
\<close>

type_synonym filesystem = "(string \<times> bytes) list"

datatype error =
    ENOENT string
  | NetworkError string
  | StreamError string

definition existsSync :: "filesystem \<Rightarrow> string \<Rightarrow> bool" where
  "existsSync fs p = (map_of fs p \<noteq> None)"

definition statSyncSize :: "filesystem \<Rightarrow> string \<Rightarrow> error + int" where
  "statSyncSize fs p =
     (case map_of fs p of None \<Rightarrow> Inl (ENOENT p) | Some bs \<Rightarrow> Inr (int (length bs)))"

definition unlinkSync :: "filesystem \<Rightarrow> string \<Rightarrow> error + filesystem" where
  "unlinkSync fs p =
     (case map_of fs p of None \<Rightarrow> Inl (ENOENT p) | Some _ \<Rightarrow> Inr (AList.delete p fs))"

definition writeFile :: "filesystem \<Rightarrow> string \<Rightarrow> bytes \<Rightarrow> filesystem" where
  "writeFile fs p bs = AList.update p bs fs"

definition entryName :: "string \<Rightarrow> string \<Rightarrow> string option" where
  "entryName dir p =
     (let n = length dir + 1; name = List.drop n p
      in if take n p = dir @ ''/'' \<and> name \<noteq> [] \<and> CHR ''/'' \<notin> set name
         then Some name else None)"

definition readdirSync :: "filesystem \<Rightarrow> string \<Rightarrow> string list" where
  "readdirSync fs dir = List.map_filter (\<lambda>(p, _). entryName dir p) fs"

subsection \<open>The cache index (StateCacheService)\<close>

text \<open>
  Modelled from the spec: the class \<^verbatim>\<open>StateCacheService\<close> (imported from
  \<^verbatim>\<open>../cache/StateCacheService\<close>) is not among the source files. The spec (sections 3, 4.4
  and 6) gives its contract: it lists the tracked identifiers, drops an entry, clears a
  pending flag, marks an object committed with its size, reads and sets a content type, and
  picks an eviction candidate among the committed entries that are not pending, the least
  recently used first. An entry is the pending flag, the content type and the ordering
  data of an identifier; dropping it removes all three.
\<close>

record stateCacheService =
  cachedObjects :: "(string \<times> int) list"
  pendingDownloads :: "string list"
  mimeTypes :: "(string \<times> string) list"

definition getCachedObjectsIds :: "stateCacheService \<Rightarrow> string list" where
  "getCachedObjectsIds c = map fst (cachedObjects c)"

definition getContentMimeType :: "stateCacheService \<Rightarrow> string \<Rightarrow> string option" where
  "getContentMimeType c objectId = map_of (mimeTypes c) objectId"

definition setContentMimeType :: "stateCacheService \<Rightarrow> string \<Rightarrow> string \<Rightarrow> stateCacheService" where
  "setContentMimeType c objectId mimeType =
     c\<lparr>mimeTypes := AList.update objectId mimeType (mimeTypes c)\<rparr>"

definition dropById :: "stateCacheService \<Rightarrow> string \<Rightarrow> stateCacheService" where
  "dropById c objectId =
     c\<lparr>cachedObjects := AList.delete objectId (cachedObjects c),
       pendingDownloads := removeAll objectId (pendingDownloads c),
       mimeTypes := AList.delete objectId (mimeTypes c)\<rparr>"

definition dropPendingDownload :: "stateCacheService \<Rightarrow> string \<Rightarrow> stateCacheService" where
  "dropPendingDownload c objectId =
     c\<lparr>pendingDownloads := removeAll objectId (pendingDownloads c)\<rparr>"

definition newContent :: "stateCacheService \<Rightarrow> string \<Rightarrow> int \<Rightarrow> stateCacheService" where
  "newContent c objectId sizeInBytes =
     c\<lparr>cachedObjects := AList.update objectId sizeInBytes (cachedObjects c)\<rparr>"

definition getCacheEvictCandidateObjectId :: "stateCacheService \<Rightarrow> string option" where
  "getCacheEvictCandidateObjectId c =
     (case filter (\<lambda>objectId. objectId \<notin> set (pendingDownloads c)) (getCachedObjectsIds c) of
        [] \<Rightarrow> None
      | objectId # _ \<Rightarrow> Some objectId)"

subsection \<open>The service state\<close>

record node =
  limitsStorage :: int
  dataDir :: string
  contentSizeSum :: int
  stateCache :: stateCacheService
  disk :: filesystem

datatype outcome = Ok node | Threw error node

definition DEFAULT_CONTENT_TYPE :: string where
  "DEFAULT_CONTENT_TYPE = ''application/octet-stream''"

definition usedSpace :: "node \<Rightarrow> int" where
  "usedSpace s = contentSizeSum s"

definition freeSpace :: "node \<Rightarrow> int" where
  "freeSpace s = limitsStorage s - contentSizeSum s"

definition path :: "node \<Rightarrow> string \<Rightarrow> string" where
  "path s objectId = dataDir s @ ''/'' @ objectId"

definition fileSize :: "node \<Rightarrow> string \<Rightarrow> error + int" where
  "fileSize s objectId = statSyncSize (disk s) (path s objectId)"

definition exists :: "node \<Rightarrow> string \<Rightarrow> bool" where
  "exists s objectId = existsSync (disk s) (path s objectId)"

text \<open>
  \<^verbatim>\<open>drop\<close> (lines 312-322): under \<^verbatim>\<open>exists\<close>, the size is read, the file unlinked and the
  counter reduced; the index entry is dropped in either branch. Both file-system calls can
  throw, and the model passes their failure on.
\<close>

definition drop :: "node \<Rightarrow> string \<Rightarrow> outcome" where
  "drop s objectId =
     (if exists s objectId then
        (case fileSize s objectId of
           Inl e \<Rightarrow> Threw e s
         | Inr size' \<Rightarrow>
             (case unlinkSync (disk s) (path s objectId) of
                Inl e \<Rightarrow> Threw e s
              | Inr fs \<Rightarrow>
                  Ok (s\<lparr>disk := fs,
                        contentSizeSum := contentSizeSum s - size',
                        stateCache := dropById (stateCache s) objectId\<rparr>)))
      else Ok (s\<lparr>stateCache := dropById (stateCache s) objectId\<rparr>))"

subsection \<open>Content type detection\<close>

text \<open>
  \<^verbatim>\<open>FileType.fromFile\<close> belongs to the library \<^verbatim>\<open>file-type\<close>. Its sniffing of a byte
  sequence is the parameter \<open>sniff\<close>. It can reject, also on a file that is there (the
  library throws End-Of-Stream when a recognised header is cut short): that is \<open>Inl\<close>.
  Otherwise \<open>Inr None\<close> is the library's \<^verbatim>\<open>undefined\<close> result (the format was not
  recognised) and \<open>Inr (Some r)\<close> a result with its \<^verbatim>\<open>mime\<close> field. Reading a file that
  is absent rejects as well.
\<close>

record fileTypeResult =
  ext :: string
  mime :: string

type_synonym sniffer = "bytes \<Rightarrow> error + fileTypeResult option"

definition fromFile :: "sniffer \<Rightarrow> filesystem \<Rightarrow> string \<Rightarrow> error + fileTypeResult option" where
  "fromFile sniff fs p =
     (case map_of fs p of None \<Rightarrow> Inl (ENOENT p) | Some bs \<Rightarrow> sniff bs)"

text \<open>
  \<^verbatim>\<open>result?.mime || DEFAULT_CONTENT_TYPE\<close> (line 350): the default is taken when the result
  is undefined and also when its \<^verbatim>\<open>mime\<close> is the empty string, which is falsy. Nothing
  catches a rejection of \<^verbatim>\<open>fromFile\<close>: it is the rejection of \<^verbatim>\<open>detectMimeType\<close>.
\<close>

definition detectMimeType :: "sniffer \<Rightarrow> node \<Rightarrow> string \<Rightarrow> error + string" where
  "detectMimeType sniff s objectId =
     (case fromFile sniff (disk s) (path s objectId) of
        Inl e \<Rightarrow> Inl e
      | Inr None \<Rightarrow> Inr DEFAULT_CONTENT_TYPE
      | Inr (Some result) \<Rightarrow>
          Inr (if mime result \<noteq> [] then mime result else DEFAULT_CONTENT_TYPE))"

subsection \<open>Periodic cleanup and startup reconciliation\<close>

text \<open>
  The authority snapshot maps an identifier to the expected size of its data object. The
  result of \<^verbatim>\<open>fetchSupportedDataObjects\<close> is an input: \<open>Inl\<close> when the request failed.
\<close>

type_synonym snapshot = "string \<rightharpoonup> int"

fun cleanupObjects :: "snapshot \<Rightarrow> node \<Rightarrow> string list \<Rightarrow> outcome" where
  "cleanupObjects supportedObjects s [] = Ok s"
| "cleanupObjects supportedObjects s (objectId # rest) =
     (if supportedObjects objectId = None then
        (case drop s objectId of
           Threw e s' \<Rightarrow> Threw e s'
         | Ok s' \<Rightarrow> cleanupObjects supportedObjects s' rest)
      else cleanupObjects supportedObjects s rest)"

definition cacheCleanup :: "error + snapshot \<Rightarrow> node \<Rightarrow> outcome" where
  "cacheCleanup fetched s =
     (case fetched of
        Inl e \<Rightarrow> Threw e s
      | Inr supportedObjects \<Rightarrow>
          cleanupObjects supportedObjects s (getCachedObjectsIds (stateCache s)))"

text \<open>Line 271: the size of every file found is added to the counter first.\<close>

definition addFileSize :: "node \<Rightarrow> int \<Rightarrow> node" where
  "addFileSize s fileSize' = s\<lparr>contentSizeSum := contentSizeSum s + fileSize'\<rparr>"

text \<open>
  Lines 273-293, for a file whose size has been added: dropped when the authority does not
  list it or expects another size, otherwise its content type is detected if the index has
  none (an empty string counts as none).
\<close>

definition checkFile :: "sniffer \<Rightarrow> snapshot \<Rightarrow> node \<Rightarrow> string \<Rightarrow> int \<Rightarrow> outcome" where
  "checkFile sniff supportedObjects s objectId fileSize' =
     (case supportedObjects objectId of
        None \<Rightarrow> drop s objectId
      | Some dataObjectSize \<Rightarrow>
          if fileSize' \<noteq> dataObjectSize then drop s objectId
          else if getContentMimeType (stateCache s) objectId \<in> {None, Some []} then
            (case detectMimeType sniff s objectId of
               Inl e \<Rightarrow> Threw e s
             | Inr mimeType \<Rightarrow>
                 Ok (s\<lparr>stateCache := setContentMimeType (stateCache s) objectId mimeType\<rparr>))
          else Ok s)"

definition startupFile :: "sniffer \<Rightarrow> snapshot \<Rightarrow> node \<Rightarrow> string \<Rightarrow> outcome" where
  "startupFile sniff supportedObjects s objectId =
     (case fileSize s objectId of
        Inl e \<Rightarrow> Threw e s
      | Inr fileSize' \<Rightarrow>
          checkFile sniff supportedObjects (addFileSize s fileSize') objectId fileSize')"

fun startupFiles :: "sniffer \<Rightarrow> snapshot \<Rightarrow> node \<Rightarrow> string list \<Rightarrow> outcome" where
  "startupFiles sniff supportedObjects s [] = Ok s"
| "startupFiles sniff supportedObjects s (objectId # rest) =
     (case startupFile sniff supportedObjects s objectId of
        Threw e s' \<Rightarrow> Threw e s'
      | Ok s' \<Rightarrow> startupFiles sniff supportedObjects s' rest)"

text \<open>Lines 296-303: index entries with no file behind them.\<close>

fun startupCacheItems :: "node \<Rightarrow> string list \<Rightarrow> node" where
  "startupCacheItems s [] = s"
| "startupCacheItems s (objectId # rest) =
     (if \<not> exists s objectId
      then startupCacheItems (s\<lparr>stateCache := dropById (stateCache s) objectId\<rparr>) rest
      else startupCacheItems s rest)"

definition startupInit :: "sniffer \<Rightarrow> error + snapshot \<Rightarrow> node \<Rightarrow> outcome" where
  "startupInit sniff fetched s =
     (case fetched of
        Inl e \<Rightarrow> Threw e s
      | Inr supportedObjects \<Rightarrow>
          (let dataDirFiles = readdirSync (disk s) (dataDir s);
               cachedObjectsIds = getCachedObjectsIds (stateCache s)
           in case startupFiles sniff supportedObjects s dataDirFiles of
                Threw e s' \<Rightarrow> Threw e s'
              | Ok s' \<Rightarrow> Ok (startupCacheItems s' cachedObjectsIds)))"

subsection \<open>Eviction\<close>

text \<open>
  Lines 353-367. With no candidate (\<^verbatim>\<open>null\<close>, or an empty identifier, which is falsy) the
  loop sleeps a second and tries again; nothing else runs in this model, so it then never
  returns, which is the value \<open>None\<close>.
\<close>

partial_function (option) evictCacheUntilFreeSpaceReached :: "node \<Rightarrow> int \<Rightarrow> outcome option" where
  "evictCacheUntilFreeSpaceReached s targetFreeSpace =
     (if freeSpace s < targetFreeSpace then
        (case getCacheEvictCandidateObjectId (stateCache s) of
           None \<Rightarrow> evictCacheUntilFreeSpaceReached s targetFreeSpace
         | Some evictCandidateId \<Rightarrow>
             if evictCandidateId \<noteq> [] then
               (case drop s evictCandidateId of
                  Threw e s' \<Rightarrow> Some (Threw e s')
                | Ok s' \<Rightarrow> evictCacheUntilFreeSpaceReached s' targetFreeSpace)
             else evictCacheUntilFreeSpaceReached s targetFreeSpace)
      else Some (Ok s))"

declare evictCacheUntilFreeSpaceReached.simps [code]

subsection \<open>Ingestion\<close>

text \<open>
  The source stream is the list of chunks it emits as \<^verbatim>\<open>data\<close> events and the way it
  ends after them: cleanly, or with an error of its own.
\<close>

record readable =
  chunks :: "bytes list"
  failure :: "error option"

datatype promise = Pending | Resolved | Rejected error

definition resolve :: "promise \<Rightarrow> promise" where
  "resolve p = (if p = Pending then Resolved else p)"

definition reject :: "error \<Rightarrow> promise \<Rightarrow> promise" where
  "reject e p = (if p = Pending then Rejected e else p)"

definition tooMuchData :: error where
  "tooMuchData = StreamError ''Unexpected content size: Too much data recieved from source!''"

text \<open>
  The \<^verbatim>\<open>data\<close> listener (lines 430-435): the new count, and the error the source is
  destroyed with when the count has passed the expected size.
\<close>

definition onData :: "int \<Rightarrow> int \<Rightarrow> bytes \<Rightarrow> int \<times> error option" where
  "onData expectedSize bytesRecieved chunk =
     (let bytesRecieved' = bytesRecieved + int (length chunk)
      in (bytesRecieved', if bytesRecieved' > expectedSize then Some tooMuchData else None))"

text \<open>
  The run of \<^verbatim>\<open>pipeline(dataStream, fileStream, ...)\<close>: Node's piping hands each chunk to
  the file stream (its listener was attached first), then the service's listener counts
  it. A destroyed source emits nothing more. The result is the count, the bytes handed
  to the file and the error of a destroyed source.
\<close>

fun pipeData :: "int \<Rightarrow> bytes list \<Rightarrow> int \<Rightarrow> bytes \<Rightarrow> int \<times> bytes \<times> error option" where
  "pipeData expectedSize [] bytesRecieved written = (bytesRecieved, written, None)"
| "pipeData expectedSize (chunk # rest) bytesRecieved written =
     (case onData expectedSize bytesRecieved chunk of
        (bytesRecieved', Some e) \<Rightarrow> (bytesRecieved', written @ chunk, Some e)
      | (bytesRecieved', None) \<Rightarrow> pipeData expectedSize rest bytesRecieved' (written @ chunk))"

text \<open>
  The callback of \<^verbatim>\<open>pipeline\<close> (lines 394-423): the state it leaves, and the error it
  passes to the promise's \<^verbatim>\<open>reject\<close>, if it calls it. In the error branch \<^verbatim>\<open>reject\<close>
  comes after \<^verbatim>\<open>drop\<close>, so a throwing \<^verbatim>\<open>drop\<close> would skip it.
\<close>

definition pipelineDone ::
  "sniffer \<Rightarrow> node \<Rightarrow> string \<Rightarrow> int \<Rightarrow> int \<Rightarrow> int \<Rightarrow> error option \<Rightarrow> outcome \<times> error option" where
  "pipelineDone sniff s objectId expectedSize bytesRecieved bytesWritten err =
     (case err of
        Some e \<Rightarrow>
          (case drop s objectId of
             Threw e' s' \<Rightarrow> (Threw e' s', None)
           | Ok s' \<Rightarrow> (Ok s', Some e))
      | None \<Rightarrow>
          if bytesWritten = bytesRecieved \<and> bytesWritten = expectedSize then
            (case detectMimeType sniff s objectId of
               Inl e \<Rightarrow> (Threw e s, None)
             | Inr mimeType \<Rightarrow>
                 (Ok (s\<lparr>stateCache :=
                          setContentMimeType
                            (newContent (dropPendingDownload (stateCache s) objectId)
                               objectId expectedSize)
                            objectId mimeType\<rparr>),
                  None))
          else (drop s objectId, None))"

text \<open>
  \<^verbatim>\<open>handleNewContent\<close> (lines 369-437), after the reservation. The file stream opens its
  file for writing, which creates or empties it, and the \<^verbatim>\<open>open\<close> event resolves the
  promise before the callback runs. Writes are taken to be complete: every chunk handed to
  the file stream is on disk when the callback runs, so \<^verbatim>\<open>bytesWritten\<close> is the length
  of what was handed over. The pipeline's error is the one the source was destroyed with,
  or else the source's own. The result records the state at the end, the promise, the
  error given to the callback and both counts.
\<close>

record ingestion =
  final :: outcome
  settled :: promise
  pipelineErr :: "error option"
  recieved :: int
  written :: int

definition reserve :: "node \<Rightarrow> int \<Rightarrow> node" where
  "reserve s expectedSize = s\<lparr>contentSizeSum := contentSizeSum s + expectedSize\<rparr>"

definition streamContent :: "sniffer \<Rightarrow> node \<Rightarrow> string \<Rightarrow> int \<Rightarrow> readable \<Rightarrow> ingestion" where
  "streamContent sniff s objectId expectedSize dataStream =
     (let opened = s\<lparr>disk := writeFile (disk s) (path s objectId) []\<rparr>;
          p = resolve Pending
      in case pipeData expectedSize (chunks dataStream) 0 [] of
           (bytesRecieved, bs, destroyed) \<Rightarrow>
             (let s' = opened\<lparr>disk := writeFile (disk opened) (path s objectId) bs\<rparr>;
                  bytesWritten = int (length bs);
                  err = (case destroyed of Some e \<Rightarrow> Some e | None \<Rightarrow> failure dataStream)
              in case pipelineDone sniff s' objectId expectedSize bytesRecieved bytesWritten err of
                   (out, rejected) \<Rightarrow>
                     \<lparr>final = out,
                      settled = (case rejected of Some e \<Rightarrow> reject e p | None \<Rightarrow> p),
                      pipelineErr = err,
                      recieved = bytesRecieved,
                      written = bytesWritten\<rparr>))"

text \<open>Lines 375-378: eviction runs only when the free space is too small.\<close>

definition evictIfRequired :: "node \<Rightarrow> int \<Rightarrow> outcome option" where
  "evictIfRequired s expectedSize =
     (if freeSpace s < expectedSize
      then evictCacheUntilFreeSpaceReached s expectedSize
      else Some (Ok s))"

definition handleNewContent ::
  "sniffer \<Rightarrow> node \<Rightarrow> string \<Rightarrow> int \<Rightarrow> readable \<Rightarrow> ingestion option" where
  "handleNewContent sniff s objectId expectedSize dataStream =
     (case evictIfRequired s expectedSize of
        None \<Rightarrow> None
      | Some (Threw e s') \<Rightarrow>
          Some \<lparr>final = Threw e s', settled = reject e Pending, pipelineErr = None,
                recieved = 0, written = 0\<rparr>
      | Some (Ok s') \<Rightarrow>
          Some (streamContent sniff (reserve s' expectedSize) objectId expectedSize dataStream))"

subsection \<open>The committed-sum invariant and committed entries\<close>

text \<open>
  The spec's words (section 8): the used space equals the sum of the on-disk sizes of
  every object the index marks as committed. An entry is committed with a size and a type
  when it is tracked with that size, has that content type and is not pending.
\<close>

definition onDiskSize :: "node \<Rightarrow> string \<Rightarrow> int" where
  "onDiskSize s objectId = (case fileSize s objectId of Inl _ \<Rightarrow> 0 | Inr n \<Rightarrow> n)"

definition committedSum :: "node \<Rightarrow> int" where
  "committedSum s = sum_list (map (onDiskSize s) (getCachedObjectsIds (stateCache s)))"

definition committed :: "stateCacheService \<Rightarrow> string \<Rightarrow> int \<Rightarrow> string \<Rightarrow> bool" where
  "committed c objectId sizeInBytes mimeType =
     (map_of (cachedObjects c) objectId = Some sizeInBytes
      \<and> getContentMimeType c objectId = Some mimeType
      \<and> objectId \<notin> set (pendingDownloads c))"

text \<open>
  A file agrees with the authority when the snapshot lists its identifier with the size
  the file has on disk; only such files count towards the used space after startup.
\<close>

definition sizeAgrees :: "snapshot \<Rightarrow> node \<Rightarrow> string \<Rightarrow> bool" where
  "sizeAgrees supportedObjects s objectId =
     (case fileSize s objectId of
        Inl _ \<Rightarrow> False
      | Inr n \<Rightarrow> supportedObjects objectId = Some n)"

definition countedSize :: "snapshot \<Rightarrow> node \<Rightarrow> string \<Rightarrow> int" where
  "countedSize supportedObjects s objectId =
     (if sizeAgrees supportedObjects s objectId then onDiskSize s objectId else 0)"

subsection \<open>Concrete states for evaluation\<close>

text \<open>
  The six bytes \<^verbatim>\<open>GIF89a\<close>, the eight bytes of the PNG signature, and a sniffer in the
  manner of the library: GIF by its three-byte magic; after a PNG signature it reads a
  chunk header (eight bytes) and rejects with End-Of-Stream when the file ends before.
\<close>

definition example_gif :: bytes where
  "example_gif = [0x47, 0x49, 0x46, 0x38, 0x39, 0x61]"

definition png_signature :: bytes where
  "png_signature = [0x89, 0x50, 0x4E, 0x47, 0x0D, 0x0A, 0x1A, 0x0A]"

definition example_sniff :: sniffer where
  "example_sniff bs =
     (if take 3 bs = [0x47, 0x49, 0x46]
      then Inr (Some \<lparr>ext = ''gif'', mime = ''image/gif''\<rparr>)
      else if take 8 bs = png_signature then
        (if length bs < 16 then Inl (StreamError ''End-Of-Stream'')
         else Inr (Some \<lparr>ext = ''png'', mime = ''image/png''\<rparr>))
      else Inr None)"

text \<open>
  A node with limit 10 holding one committed object \<open>a\<close> of 6 bytes, counted; the index
  also tracks \<open>g\<close>, which has no file.
\<close>

definition example_node :: node where
  "example_node =
     \<lparr>limitsStorage = 10, dataDir = ''d'', contentSizeSum = 6,
      stateCache = \<lparr>cachedObjects = [(''a'', 6), (''g'', 2)], pendingDownloads = [],
                     mimeTypes = [(''a'', ''image/gif'')]\<rparr>,
      disk = [(''d/a'', example_gif)]\<rparr>"

text \<open>The node of the eviction scenario: limit 1000, one committed object of 600 bytes.\<close>

definition scenario_node :: node where
  "scenario_node =
     \<lparr>limitsStorage = 1000, dataDir = ''d'', contentSizeSum = 600,
      stateCache = \<lparr>cachedObjects = [(''a'', 600)], pendingDownloads = [],
                     mimeTypes = [(''a'', ''image/gif'')]\<rparr>,
      disk = [(''d/a'', replicate 600 0)]\<rparr>"

definition scenario_source :: readable where
  "scenario_source = \<lparr>chunks = [replicate 300 1, replicate 200 2], failure = None\<rparr>"

text \<open>A node whose only object is an empty file, tracked and counted.\<close>

definition example_empty :: node where
  "example_empty =
     \<lparr>limitsStorage = 10, dataDir = ''d'', contentSizeSum = 0,
      stateCache = \<lparr>cachedObjects = [(''z'', 0)], pendingDownloads = [], mimeTypes = []\<rparr>,
      disk = [(''d/z'', [])]\<rparr>"

text \<open>
  A node with limit 9 holding \<open>o\<close> (4 bytes, the older entry) and \<open>a\<close> (3 bytes), and
  the same node once \<open>o\<close> has been evicted.
\<close>

definition example_pair :: node where
  "example_pair =
     \<lparr>limitsStorage = 9, dataDir = ''d'', contentSizeSum = 7,
      stateCache = \<lparr>cachedObjects = [(''o'', 4), (''a'', 3)], pendingDownloads = [],
                     mimeTypes = []\<rparr>,
      disk = [(''d/o'', [1, 2, 3, 4]), (''d/a'', [5, 6, 7])]\<rparr>"

definition example_pair_evicted :: node where
  "example_pair_evicted =
     \<lparr>limitsStorage = 9, dataDir = ''d'', contentSizeSum = 3,
      stateCache = \<lparr>cachedObjects = [(''a'', 3)], pendingDownloads = [], mimeTypes = []\<rparr>,
      disk = [(''d/a'', [5, 6, 7])]\<rparr>"

section \<open>Properties\<close>

subsection \<open>Removal\<close>

lemma exists_iff: "exists s objectId \<longleftrightarrow> (\<exists>bs. map_of (disk s) (path s objectId) = Some bs)"
  by (simp add: exists_def existsSync_def)

lemma path_update [simp]:
  "path (s\<lparr>disk := fs\<rparr>) objectId = path s objectId"
  "path (s\<lparr>contentSizeSum := n\<rparr>) objectId = path s objectId"
  "path (s\<lparr>stateCache := c\<rparr>) objectId = path s objectId"
  by (simp_all add: path_def)

lemma path_inj [simp]: "path s a = path s b \<longleftrightarrow> a = b"
  by (simp add: path_def)

lemma drop_present:
  assumes "map_of (disk s) (path s objectId) = Some bs"
  shows "drop s objectId =
           Ok (s\<lparr>disk := AList.delete (path s objectId) (disk s),
                  contentSizeSum := contentSizeSum s - int (length bs),
                  stateCache := dropById (stateCache s) objectId\<rparr>)"
  using assms
  by (simp add: drop_def exists_def existsSync_def fileSize_def statSyncSize_def unlinkSync_def)

lemma drop_absent:
  assumes "map_of (disk s) (path s objectId) = None"
  shows "drop s objectId = Ok (s\<lparr>stateCache := dropById (stateCache s) objectId\<rparr>)"
  using assms by (simp add: drop_def exists_def existsSync_def)

lemma dropById_idem: "dropById (dropById c objectId) objectId = dropById c objectId"
  by (simp add: dropById_def AList.delete_idem)

lemma example_path [simp]: "path example_node objectId = ''d/'' @ objectId"
  by (simp add: path_def example_node_def)

lemma example_disk [simp]: "disk example_node = [(''d/a'', example_gif)]"
  by (simp add: example_node_def)

text \<open>
  C10. Inside \<^verbatim>\<open>drop\<close> the size query and the unlink run only when the file exists, and
  there neither fails: \<^verbatim>\<open>drop\<close> never throws. With no file, only the index changes. The
  index entry is dropped in both branches.
\<close>

theorem drop_guarded:
  "(exists s objectId \<longrightarrow>
      (\<exists>n fs. fileSize s objectId = Inr n \<and> unlinkSync (disk s) (path s objectId) = Inr fs))
   \<and> (\<exists>s'. drop s objectId = Ok s' \<and> stateCache s' = dropById (stateCache s) objectId)
   \<and> (\<not> exists s objectId \<longrightarrow>
        drop s objectId = Ok (s\<lparr>stateCache := dropById (stateCache s) objectId\<rparr>))"
proof (cases "map_of (disk s) (path s objectId)")
  case None
  then show ?thesis
    by (simp add: drop_absent exists_iff)
next
  case (Some bs)
  then show ?thesis
    by (simp add: drop_present exists_iff fileSize_def statSyncSize_def unlinkSync_def)
qed

theorem drop_guarded_witness:
  "exists example_node ''a'' \<and> \<not> exists example_node ''g''
   \<and> fileSize example_node ''a'' = Inr 6
   \<and> unlinkSync (disk example_node) (path example_node ''a'') = Inr []
   \<and> (\<exists>s'. drop example_node ''a'' = Ok s'
           \<and> stateCache s' = dropById (stateCache example_node) ''a'')
   \<and> drop example_node ''g''
       = Ok (example_node\<lparr>stateCache := dropById (stateCache example_node) ''g''\<rparr>)"
  using drop_guarded [of example_node "''a''"] drop_guarded [of example_node "''g''"]
  by (simp add: exists_iff fileSize_def statSyncSize_def unlinkSync_def example_gif_def)

lemma exists_stateCache_update [simp]:
  "exists (s\<lparr>stateCache := c\<rparr>) objectId = exists s objectId"
  by (simp add: exists_def path_def)

text \<open>
  C6. For every identifier, a second \<^verbatim>\<open>drop\<close> right after the first returns the very
  state the first one left: the same end state as one call, with no change to the disk or
  to the used-space counter (the file is gone after the first call).
\<close>

theorem drop_idempotent:
  "\<exists>s'. drop s objectId = Ok s' \<and> drop s' objectId = Ok s'
        \<and> \<not> exists s' objectId"
proof (cases "map_of (disk s) (path s objectId)")
  case None
  then show ?thesis
    by (simp add: drop_absent dropById_idem exists_iff)
next
  case (Some bs)
  let ?s' = "s\<lparr>disk := AList.delete (path s objectId) (disk s),
                contentSizeSum := contentSizeSum s - int (length bs),
                stateCache := dropById (stateCache s) objectId\<rparr>"
  have gone: "map_of (disk ?s') (path ?s' objectId) = None"
    by (simp add: AList.delete_conv)
  have "drop ?s' objectId = Ok ?s'"
    using drop_absent [OF gone] by (simp add: dropById_idem)
  with Some gone show ?thesis
    by (simp add: drop_present exists_iff)
qed

theorem drop_idempotent_witness:
  "drop example_node ''a''
     = Ok (example_node\<lparr>disk := [], contentSizeSum := 0,
                        stateCache := dropById (stateCache example_node) ''a''\<rparr>)
   \<and> drop (example_node\<lparr>disk := [], contentSizeSum := 0,
                         stateCache := dropById (stateCache example_node) ''a''\<rparr>) ''a''
     = Ok (example_node\<lparr>disk := [], contentSizeSum := 0,
                        stateCache := dropById (stateCache example_node) ''a''\<rparr>)"
proof -
  have first: "drop example_node ''a''
     = Ok (example_node\<lparr>disk := [], contentSizeSum := 0,
                        stateCache := dropById (stateCache example_node) ''a''\<rparr>)"
    using drop_present [of example_node "''a''" example_gif]
    by (simp add: example_gif_def) (simp add: example_node_def)
  show ?thesis
    using drop_idempotent [of example_node "''a''"] first by auto
qed

subsection \<open>A failed snapshot fetch\<close>

text \<open>
  C5. When the fetch of the authority snapshot fails, \<^verbatim>\<open>startupInit\<close> and
  \<^verbatim>\<open>cacheCleanup\<close> both end with that failure in the state they started from: no file
  is deleted, the counter is unchanged and the index is untouched.
\<close>

theorem fetch_failure_no_mutation:
  "startupInit sniff (Inl e) s = Threw e s \<and> cacheCleanup (Inl e) s = Threw e s"
  by (simp add: startupInit_def cacheCleanup_def)

theorem fetch_failure_no_mutation_witness:
  "startupInit example_sniff (Inl (NetworkError ''timeout'')) example_node
     = Threw (NetworkError ''timeout'') example_node
   \<and> cacheCleanup (Inl (NetworkError ''timeout'')) example_node
     = Threw (NetworkError ''timeout'') example_node"
  using fetch_failure_no_mutation [of example_sniff "NetworkError ''timeout''" example_node]
  by simp

subsection \<open>Index entries without a file\<close>

text \<open>
  C7. The second loop of startup reconciliation leaves the files and the used-space
  counter as they are; its only effect is to drop, from the index, the entries of the
  listed identifiers that have no file.
\<close>

theorem startupCacheItems_frame:
  "disk (startupCacheItems s ids) = disk s
   \<and> contentSizeSum (startupCacheItems s ids) = contentSizeSum s
   \<and> stateCache (startupCacheItems s ids) =
       foldl dropById (stateCache s) (filter (\<lambda>objectId. \<not> exists s objectId) ids)"
  by (induction ids arbitrary: s) simp_all

theorem startupCacheItems_frame_witness:
  "disk (startupCacheItems example_node [''a'', ''g'']) = disk example_node
   \<and> contentSizeSum (startupCacheItems example_node [''a'', ''g'']) = 6
   \<and> stateCache (startupCacheItems example_node [''a'', ''g''])
       = \<lparr>cachedObjects = [(''a'', 6)], pendingDownloads = [],
          mimeTypes = [(''a'', ''image/gif'')]\<rparr>"
  using startupCacheItems_frame [of example_node "[''a'', ''g'']"]
  by (simp add: exists_iff dropById_def) (simp add: example_node_def)

subsection \<open>Content type detection\<close>

lemma detectMimeType_stored:
  "map_of (disk s) (path s objectId) = Some bs \<Longrightarrow> sniff bs = Inr res \<Longrightarrow>
   \<exists>m. detectMimeType sniff s objectId = Inr m"
  by (cases res) (simp_all add: detectMimeType_def fromFile_def)

lemma detectMimeType_rejects:
  "map_of (disk s) (path s objectId) = Some bs \<Longrightarrow> sniff bs = Inl e \<Longrightarrow>
   detectMimeType sniff s objectId = Inl e"
  by (simp add: detectMimeType_def fromFile_def)




subsection \<open>Streaming a source into the store\<close>

lemma pipeData_fits:
  "bytesRecieved + int (length (concat cs)) \<le> expectedSize \<Longrightarrow>
   pipeData expectedSize cs bytesRecieved w
     = (bytesRecieved + int (length (concat cs)), w @ concat cs, None)"
proof (induction cs arbitrary: bytesRecieved w)
  case Nil
  show ?case by simp
next
  case (Cons c cs)
  have small: "\<not> expectedSize < bytesRecieved + int (length c)"
    using Cons.prems by simp
  have "pipeData expectedSize cs (bytesRecieved + int (length c)) (w @ c)
          = (bytesRecieved + int (length c) + int (length (concat cs)), (w @ c) @ concat cs, None)"
    using Cons.prems by (intro Cons.IH) simp
  with small show ?case
    by (simp add: onData_def Let_def add.assoc)
qed

lemma pipeData_overflow:
  "bytesRecieved \<le> expectedSize \<Longrightarrow>
   expectedSize < bytesRecieved + int (length (concat cs)) \<Longrightarrow>
   \<exists>w'. pipeData expectedSize cs bytesRecieved w
           = (bytesRecieved + int (length w'), w @ w', Some tooMuchData)
        \<and> expectedSize < bytesRecieved + int (length w')"
proof (induction cs arbitrary: bytesRecieved w)
  case Nil
  then show ?case by simp
next
  case (Cons c cs)
  show ?case
  proof (cases "expectedSize < bytesRecieved + int (length c)")
    case True
    then have "pipeData expectedSize (c # cs) bytesRecieved w
                = (bytesRecieved + int (length c), w @ c, Some tooMuchData)"
      by (simp add: onData_def Let_def)
    with True show ?thesis by blast
  next
    case False
    then have le: "bytesRecieved + int (length c) \<le> expectedSize" by simp
    have more: "expectedSize < bytesRecieved + int (length c) + int (length (concat cs))"
      using Cons.prems(2) by simp
    obtain w' where w':
      "pipeData expectedSize cs (bytesRecieved + int (length c)) (w @ c)
         = (bytesRecieved + int (length c) + int (length w'), (w @ c) @ w', Some tooMuchData)"
      "expectedSize < bytesRecieved + int (length c) + int (length w')"
      using Cons.IH [OF le more, of "w @ c"] by blast
    have "pipeData expectedSize (c # cs) bytesRecieved w
            = (bytesRecieved + int (length (c @ w')), w @ (c @ w'), Some tooMuchData)"
      using False w'(1) by (simp add: onData_def Let_def add.assoc)
    moreover have "expectedSize < bytesRecieved + int (length (c @ w'))"
      using w'(2) by simp
    ultimately show ?thesis by blast
  qed
qed

lemma evict_enough:
  "\<not> freeSpace s < targetFreeSpace \<Longrightarrow>
   evictCacheUntilFreeSpaceReached s targetFreeSpace = Some (Ok s)"
  by (subst evictCacheUntilFreeSpaceReached.simps) simp

lemma evict_step:
  "freeSpace s < targetFreeSpace \<Longrightarrow>
   getCacheEvictCandidateObjectId (stateCache s) = Some c \<Longrightarrow> c \<noteq> [] \<Longrightarrow>
   drop s c = Ok s' \<Longrightarrow>
   evictCacheUntilFreeSpaceReached s targetFreeSpace
     = evictCacheUntilFreeSpaceReached s' targetFreeSpace"
  by (subst evictCacheUntilFreeSpaceReached.simps) simp

lemma map_of_writeFile [simp]:
  "map_of (writeFile fs p bs) q = (if q = p then Some bs else map_of fs q)"
  by (simp add: writeFile_def update_conv')

lemma writeFile_twice [simp]: "writeFile (writeFile fs p bs) p bs' = writeFile fs p bs'"
  by (simp add: writeFile_def)

lemma streamContent_exact:
  assumes len: "int (length (concat (chunks dataStream))) = expectedSize"
    and clean: "failure dataStream = None"
    and detected: "sniff (concat (chunks dataStream)) = Inr res"
  shows "\<exists>m. detectMimeType sniff
               (s\<lparr>disk := writeFile (disk s) (path s objectId) (concat (chunks dataStream))\<rparr>)
               objectId = Inr m
           \<and> streamContent sniff s objectId expectedSize dataStream =
               \<lparr>final = Ok (s\<lparr>disk := writeFile (disk s) (path s objectId)
                                          (concat (chunks dataStream)),
                              stateCache :=
                                setContentMimeType
                                  (newContent (dropPendingDownload (stateCache s) objectId)
                                     objectId expectedSize)
                                  objectId m\<rparr>),
                settled = Resolved, pipelineErr = None,
                recieved = expectedSize, written = expectedSize\<rparr>"
proof -
  let ?bs = "concat (chunks dataStream)"
  let ?s' = "s\<lparr>disk := writeFile (disk s) (path s objectId) ?bs\<rparr>"
  have pd: "pipeData expectedSize (chunks dataStream) 0 [] = (expectedSize, ?bs, None)"
    using pipeData_fits [of 0 "chunks dataStream" expectedSize "[]"] len by simp
  have "map_of (disk ?s') (path ?s' objectId) = Some ?bs" by simp
  then obtain m where m: "detectMimeType sniff ?s' objectId = Inr m"
    using detectMimeType_stored detected by blast
  have "streamContent sniff s objectId expectedSize dataStream =
          \<lparr>final = Ok (?s'\<lparr>stateCache :=
                                setContentMimeType
                                  (newContent (dropPendingDownload (stateCache s) objectId)
                                     objectId expectedSize)
                                  objectId m\<rparr>),
           settled = Resolved, pipelineErr = None,
           recieved = expectedSize, written = expectedSize\<rparr>"
    using pd m len clean
    by (simp add: streamContent_def pipelineDone_def resolve_def Let_def)
  with m show ?thesis by auto
qed

lemma streamContent_overflow:
  assumes nonneg: "0 \<le> expectedSize"
    and more: "expectedSize < int (length (concat (chunks dataStream)))"
  shows "\<exists>w. expectedSize < int (length w)
           \<and> streamContent sniff s objectId expectedSize dataStream =
               \<lparr>final = Ok (s\<lparr>disk := AList.delete (path s objectId)
                                          (writeFile (disk s) (path s objectId) w),
                              contentSizeSum := contentSizeSum s - int (length w),
                              stateCache := dropById (stateCache s) objectId\<rparr>),
                settled = Resolved, pipelineErr = Some tooMuchData,
                recieved = int (length w), written = int (length w)\<rparr>"
proof -
  obtain w where w:
    "pipeData expectedSize (chunks dataStream) 0 [] = (int (length w), w, Some tooMuchData)"
    "expectedSize < int (length w)"
    using pipeData_overflow [of 0 expectedSize "chunks dataStream" "[]"] nonneg more by auto
  let ?s' = "s\<lparr>disk := writeFile (disk s) (path s objectId) w\<rparr>"
  have "map_of (disk ?s') (path ?s' objectId) = Some w" by simp
  then have "drop ?s' objectId =
      Ok (?s'\<lparr>disk := AList.delete (path ?s' objectId) (disk ?s'),
              contentSizeSum := contentSizeSum ?s' - int (length w),
              stateCache := dropById (stateCache ?s') objectId\<rparr>)"
    by (rule drop_present)
  then have "streamContent sniff s objectId expectedSize dataStream =
               \<lparr>final = Ok (s\<lparr>disk := AList.delete (path s objectId)
                                          (writeFile (disk s) (path s objectId) w),
                              contentSizeSum := contentSizeSum s - int (length w),
                              stateCache := dropById (stateCache s) objectId\<rparr>),
                settled = Resolved, pipelineErr = Some tooMuchData,
                recieved = int (length w), written = int (length w)\<rparr>"
    using w(1) by (simp add: streamContent_def pipelineDone_def resolve_def reject_def Let_def)
  with w(2) show ?thesis by blast
qed

lemma committed_after:
  "committed (setContentMimeType (newContent (dropPendingDownload c objectId) objectId n)
                objectId m) objectId n m"
  by (simp add: committed_def setContentMimeType_def newContent_def dropPendingDownload_def
      getContentMimeType_def update_conv')

lemma path_reserve [simp]: "path (reserve s n) objectId = path s objectId"
  by (simp add: reserve_def)

subsection \<open>Eviction before ingestion\<close>

text \<open>
  C2. Storage limit 1000, one committed object \<open>a\<close> of 600 bytes on disk and counted,
  which is the eviction candidate; a request declares 500 bytes and its source is well
  formed: it delivers exactly 500 bytes, ends cleanly, and type detection on these bytes
  does not reject. Then the free space (400) is too small, eviction returns
  having dropped \<open>a\<close>, and the ingestion ends without error: the new object is the only
  file, it has 500 bytes, the index holds it as committed, and the used space is 500.
\<close>

theorem eviction_scenario:
  assumes limit: "limitsStorage s = 1000"
    and files: "disk s = [(path s a, bs)]"
    and size: "length bs = 600"
    and counted: "contentSizeSum s = 600"
    and tracked: "cachedObjects (stateCache s) = [(a, 600)]"
    and notPending: "a \<notin> set (pendingDownloads (stateCache s))"
    and named: "a \<noteq> []"
    and len: "length (concat (chunks dataStream)) = 500"
    and clean: "failure dataStream = None"
    and detected: "sniff (concat (chunks dataStream)) = Inr res"
  shows "freeSpace s < 500
    \<and> getCacheEvictCandidateObjectId (stateCache s) = Some a
    \<and> (\<exists>s1. evictCacheUntilFreeSpaceReached s 500 = Some (Ok s1)
             \<and> disk s1 = [] \<and> usedSpace s1 = 0
             \<and> getCachedObjectsIds (stateCache s1) = [])
    \<and> (\<exists>r s' m. handleNewContent sniff s b 500 dataStream = Some r
             \<and> final r = Ok s' \<and> pipelineErr r = None \<and> settled r = Resolved
             \<and> disk s' = [(path s b, concat (chunks dataStream))]
             \<and> fileSize s' b = Inr 500
             \<and> committed (stateCache s') b 500 m
             \<and> usedSpace s' = 500)"
proof -
  let ?s1 = "s\<lparr>disk := AList.delete (path s a) (disk s),
                contentSizeSum := contentSizeSum s - int (length bs),
                stateCache := dropById (stateCache s) a\<rparr>"
  have low: "freeSpace s < 500"
    using limit counted by (simp add: freeSpace_def)
  have cand: "getCacheEvictCandidateObjectId (stateCache s) = Some a"
    using tracked notPending
    by (simp add: getCacheEvictCandidateObjectId_def getCachedObjectsIds_def)
  have dropped: "drop s a = Ok ?s1"
    using files by (intro drop_present) simp
  have enough: "\<not> freeSpace ?s1 < 500"
    using limit counted size by (simp add: freeSpace_def)
  have evicted: "evictCacheUntilFreeSpaceReached s 500 = Some (Ok ?s1)"
    using evict_step [OF low cand named dropped] evict_enough [OF enough] by simp
  have s1: "disk ?s1 = []" "usedSpace ?s1 = 0" "getCachedObjectsIds (stateCache ?s1) = []"
    using files counted size tracked
    by (simp_all add: usedSpace_def getCachedObjectsIds_def dropById_def)
  let ?s2 = "reserve ?s1 500"
  obtain m where stream:
    "streamContent sniff ?s2 b 500 dataStream =
       \<lparr>final = Ok (?s2\<lparr>disk := writeFile (disk ?s2) (path ?s2 b) (concat (chunks dataStream)),
                        stateCache :=
                          setContentMimeType
                            (newContent (dropPendingDownload (stateCache ?s2) b) b 500) b m\<rparr>),
        settled = Resolved, pipelineErr = None, recieved = 500, written = 500\<rparr>"
    using streamContent_exact [of dataStream 500 sniff res ?s2 b] len clean detected by auto
  let ?s' = "?s2\<lparr>disk := writeFile (disk ?s2) (path ?s2 b) (concat (chunks dataStream)),
                  stateCache :=
                    setContentMimeType
                      (newContent (dropPendingDownload (stateCache ?s2) b) b 500) b m\<rparr>"
  have run: "handleNewContent sniff s b 500 dataStream =
       Some \<lparr>final = Ok ?s', settled = Resolved, pipelineErr = None,
             recieved = 500, written = 500\<rparr>"
    using low evicted stream by (simp add: handleNewContent_def evictIfRequired_def)
  have d: "disk ?s' = [(path s b, concat (chunks dataStream))]"
    using files by (simp add: reserve_def writeFile_def)
  have u: "usedSpace ?s' = 500"
    using counted size by (simp add: usedSpace_def reserve_def)
  have f: "fileSize ?s' b = Inr 500"
    using len by (simp add: fileSize_def statSyncSize_def)
  have c: "committed (stateCache ?s') b 500 m"
    by (simp add: committed_after)
  from low cand evicted s1 run d u f c show ?thesis
    by (intro conjI exI [of _ ?s1] exI [of _ ?s'] exI [of _ m]
        exI [of _ "\<lparr>final = Ok ?s', settled = Resolved, pipelineErr = None,
                     recieved = 500, written = 500\<rparr>"]) simp_all
qed

lemma example_sniff_other:
  "bs \<noteq> [] \<Longrightarrow> hd bs \<noteq> 0x47 \<Longrightarrow> hd bs \<noteq> 0x89 \<Longrightarrow> example_sniff bs = Inr None"
  by (cases bs) (auto simp: example_sniff_def png_signature_def)

theorem eviction_scenario_witness:
  "limitsStorage scenario_node = 1000
   \<and> disk scenario_node = [(path scenario_node ''a'', replicate 600 0)]
   \<and> contentSizeSum scenario_node = 600
   \<and> cachedObjects (stateCache scenario_node) = [(''a'', 600)]
   \<and> length (concat (chunks scenario_source)) = 500
   \<and> failure scenario_source = None
   \<and> example_sniff (concat (chunks scenario_source)) = Inr None
   \<and> (\<exists>r s'. handleNewContent example_sniff scenario_node ''b'' 500 scenario_source = Some r
          \<and> final r = Ok s'
          \<and> disk s' = [(''d/b'', replicate 300 1 @ replicate 200 2)]
          \<and> usedSpace s' = 500)"
proof -
  have h: "limitsStorage scenario_node = 1000"
    "disk scenario_node = [(path scenario_node ''a'', replicate 600 0)]"
    "length (replicate 600 (0::8 word)) = 600"
    "contentSizeSum scenario_node = 600"
    "cachedObjects (stateCache scenario_node) = [(''a'', 600)]"
    "''a'' \<notin> set (pendingDownloads (stateCache scenario_node))"
    "''a'' \<noteq> []"
    "length (concat (chunks scenario_source)) = 500"
    "failure scenario_source = None"
    by (simp_all add: scenario_node_def scenario_source_def path_def)
  have d: "example_sniff (concat (chunks scenario_source)) = Inr None"
    by (rule example_sniff_other) (simp_all add: scenario_source_def hd_append)
  have p: "path scenario_node ''b'' = ''d/b''"
    by (simp add: scenario_node_def path_def)
  show ?thesis
    using h d
      eviction_scenario
        [where s = scenario_node and a = "''a''" and bs = "replicate 600 0"
           and dataStream = scenario_source and sniff = example_sniff and res = None
           and b = "''b''"]
    by (auto simp: p) (auto simp: scenario_source_def)
qed

subsection \<open>Completion of an ingestion\<close>

lemma dropById_untracked:
  "objectId \<notin> set (getCachedObjectsIds (dropById c objectId))"
  by (simp add: getCachedObjectsIds_def dropById_def delete_keys)

lemma dropById_not_committed: "\<not> committed (dropById c objectId) objectId n m"
  by (simp add: committed_def dropById_def delete_conv)

lemma drop_result:
  "\<exists>s'. drop s objectId = Ok s' \<and> \<not> exists s' objectId
        \<and> stateCache s' = dropById (stateCache s) objectId
        \<and> disk s' = AList.delete (path s objectId) (disk s)
        \<and> contentSizeSum s' = contentSizeSum s - onDiskSize s objectId
        \<and> dataDir s' = dataDir s \<and> limitsStorage s' = limitsStorage s"
proof (cases "map_of (disk s) (path s objectId)")
  case None
  then have "path s objectId \<notin> fst ` set (disk s)"
    by (simp add: map_of_eq_None_iff)
  then have "AList.delete (path s objectId) (disk s) = disk s"
    by (rule delete_id)
  with None show ?thesis
    by (simp add: drop_absent exists_iff onDiskSize_def fileSize_def statSyncSize_def)
next
  case (Some bs)
  then show ?thesis
    by (simp add: drop_present exists_iff onDiskSize_def fileSize_def statSyncSize_def
        delete_conv path_def)
qed

text \<open>
  C3, as amended. When the pipeline completes, the object is committed (pending flag
  cleared, tracked with the expected size, content type stored; disk and counter
  untouched) exactly when there is no error, the bytes written equal both the bytes
  received and the expected size, and the detection of the content type does not reject;
  when it rejects the callback ends with that rejection and commits nothing. With an
  error or with counts that disagree the object is removed by \<^verbatim>\<open>drop\<close>: no file and no
  index entry remain. The promise's \<^verbatim>\<open>reject\<close> is called with the pipeline's error when
  there is one; a mismatch of the counts without an error is reported to nobody.
\<close>

theorem pipelineDone_commit_or_drop:
  "(err = None \<and> bytesWritten = bytesRecieved \<and> bytesWritten = expectedSize \<longrightarrow>
      (\<forall>m. detectMimeType sniff s objectId = Inr m \<longrightarrow>
         (\<exists>c. pipelineDone sniff s objectId expectedSize bytesRecieved bytesWritten err
                 = (Ok (s\<lparr>stateCache := c\<rparr>), None)
            \<and> committed c objectId expectedSize m))
      \<and> (\<forall>e. detectMimeType sniff s objectId = Inl e \<longrightarrow>
            pipelineDone sniff s objectId expectedSize bytesRecieved bytesWritten err
              = (Threw e s, None)))
   \<and> (\<not> (err = None \<and> bytesWritten = bytesRecieved \<and> bytesWritten = expectedSize) \<longrightarrow>
      (\<exists>s'. pipelineDone sniff s objectId expectedSize bytesRecieved bytesWritten err
               = (Ok s', err)
         \<and> drop s objectId = Ok s'
         \<and> \<not> exists s' objectId
         \<and> objectId \<notin> set (getCachedObjectsIds (stateCache s'))
         \<and> (\<forall>n m. \<not> committed (stateCache s') objectId n m)))"
proof (intro conjI impI allI)
  fix m
  assume a: "err = None \<and> bytesWritten = bytesRecieved \<and> bytesWritten = expectedSize"
    and m: "detectMimeType sniff s objectId = Inr m"
  let ?c = "setContentMimeType
              (newContent (dropPendingDownload (stateCache s) objectId) objectId expectedSize)
              objectId m"
  have "pipelineDone sniff s objectId expectedSize bytesRecieved bytesWritten err
          = (Ok (s\<lparr>stateCache := ?c\<rparr>), None)"
    using a m by (simp add: pipelineDone_def)
  moreover have "committed ?c objectId expectedSize m"
    by (rule committed_after)
  ultimately show "\<exists>c. pipelineDone sniff s objectId expectedSize bytesRecieved bytesWritten err
                 = (Ok (s\<lparr>stateCache := c\<rparr>), None)
            \<and> committed c objectId expectedSize m"
    by blast
next
  fix e
  assume "err = None \<and> bytesWritten = bytesRecieved \<and> bytesWritten = expectedSize"
    and "detectMimeType sniff s objectId = Inl e"
  then show "pipelineDone sniff s objectId expectedSize bytesRecieved bytesWritten err
               = (Threw e s, None)"
    by (simp add: pipelineDone_def)
next
  assume b: "\<not> (err = None \<and> bytesWritten = bytesRecieved \<and> bytesWritten = expectedSize)"
  obtain s' where s': "drop s objectId = Ok s'" "\<not> exists s' objectId"
    and c: "stateCache s' = dropById (stateCache s) objectId"
    using drop_result [of s objectId] by blast
  have "pipelineDone sniff s objectId expectedSize bytesRecieved bytesWritten err = (Ok s', err)"
    using b s'(1) by (cases err) (auto simp: pipelineDone_def)
  with s' c show "\<exists>s'. pipelineDone sniff s objectId expectedSize bytesRecieved bytesWritten err
               = (Ok s', err)
         \<and> drop s objectId = Ok s'
         \<and> \<not> exists s' objectId
         \<and> objectId \<notin> set (getCachedObjectsIds (stateCache s'))
         \<and> (\<forall>n m. \<not> committed (stateCache s') objectId n m)"
    by (auto simp: dropById_untracked dropById_not_committed)
qed

theorem pipelineDone_commit_or_drop_witness:
  "detectMimeType example_sniff example_node ''a'' = Inr ''image/gif''
   \<and> pipelineDone example_sniff example_node ''a'' 6 6 6 None
       = (Ok (example_node\<lparr>stateCache :=
                \<lparr>cachedObjects = [(''a'', 6), (''g'', 2)], pendingDownloads = [],
                 mimeTypes = [(''a'', ''image/gif'')]\<rparr>\<rparr>), None)
   \<and> detectMimeType example_sniff (example_node\<lparr>disk := [(''d/a'', png_signature)]\<rparr>) ''a''
       = Inl (StreamError ''End-Of-Stream'')
   \<and> pipelineDone example_sniff (example_node\<lparr>disk := [(''d/a'', png_signature)]\<rparr>)
        ''a'' 8 8 8 None
       = (Threw (StreamError ''End-Of-Stream'')
            (example_node\<lparr>disk := [(''d/a'', png_signature)]\<rparr>), None)
   \<and> (\<exists>s'. pipelineDone example_sniff example_node ''a'' 6 5 5 None = (Ok s', None)
          \<and> \<not> exists s' ''a'')
   \<and> (\<exists>s'. pipelineDone example_sniff example_node ''a'' 6 7 7 (Some tooMuchData)
             = (Ok s', Some tooMuchData)
          \<and> \<not> exists s' ''a'')"
proof -
  have d: "detectMimeType example_sniff example_node ''a'' = Inr ''image/gif''"
    by (simp add: detectMimeType_def fromFile_def example_sniff_def example_gif_def)
  have r: "detectMimeType example_sniff (example_node\<lparr>disk := [(''d/a'', png_signature)]\<rparr>) ''a''
       = Inl (StreamError ''End-Of-Stream'')"
    by (simp add: detectMimeType_def fromFile_def example_sniff_def png_signature_def path_def
        example_node_def)
  have c: "pipelineDone example_sniff example_node ''a'' 6 6 6 None
       = (Ok (example_node\<lparr>stateCache :=
                \<lparr>cachedObjects = [(''a'', 6), (''g'', 2)], pendingDownloads = [],
                 mimeTypes = [(''a'', ''image/gif'')]\<rparr>\<rparr>), None)"
    using d
    by (simp add: pipelineDone_def setContentMimeType_def newContent_def
        dropPendingDownload_def) (simp add: example_node_def)
  show ?thesis
    using d r c
      pipelineDone_commit_or_drop [of None 6 6 6 example_sniff example_node "''a''"]
      pipelineDone_commit_or_drop
        [of None 8 8 8 example_sniff "example_node\<lparr>disk := [(''d/a'', png_signature)]\<rparr>" "''a''"]
      pipelineDone_commit_or_drop [of None 5 5 6 example_sniff example_node "''a''"]
      pipelineDone_commit_or_drop [of "Some tooMuchData" 7 7 6 example_sniff example_node "''a''"]
    by auto
qed

text \<open>
  C3 as stated fails in two ways. A source that ends cleanly after 2 of the 3 expected
  bytes has its object removed (the used space going from 6 to 9 and then to 7), yet
  \<^verbatim>\<open>reject\<close> is never called and the caller's promise stays resolved. And a source that
  delivers exactly the 8 expected bytes, the PNG signature, completes without error and
  with equal counts, but detection rejects: the object is neither committed nor removed.
\<close>

theorem completion_not_committed_not_reported:
  "(\<exists>r s'. handleNewContent example_sniff example_node ''b'' 3
              \<lparr>chunks = [[1, 2]], failure = None\<rparr> = Some r
      \<and> final r = Ok s' \<and> pipelineErr r = None
      \<and> recieved r = 2 \<and> written r = 2
      \<and> \<not> exists s' ''b''
      \<and> usedSpace example_node = 6 \<and> usedSpace s' = 7
      \<and> settled r = Resolved
      \<and> snd (pipelineDone example_sniff
                ((reserve example_node 3)\<lparr>disk := [(''d/a'', example_gif), (''d/b'', [1, 2])]\<rparr>)
                ''b'' 3 2 2 None) = None)
   \<and> (\<exists>r s'. handleNewContent example_sniff example_empty ''p'' 8
              \<lparr>chunks = [png_signature], failure = None\<rparr> = Some r
      \<and> pipelineErr r = None \<and> recieved r = 8 \<and> written r = 8
      \<and> final r = Threw (StreamError ''End-Of-Stream'') s'
      \<and> exists s' ''p''
      \<and> ''p'' \<notin> set (getCachedObjectsIds (stateCache s')))"
proof -
  have free: "\<not> freeSpace example_node < 3" "\<not> freeSpace example_empty < 8"
    by (simp_all add: freeSpace_def example_node_def example_empty_def)
  have first: "\<exists>r s'. handleNewContent example_sniff example_node ''b'' 3
              \<lparr>chunks = [[1, 2]], failure = None\<rparr> = Some r
      \<and> final r = Ok s' \<and> pipelineErr r = None
      \<and> recieved r = 2 \<and> written r = 2
      \<and> \<not> exists s' ''b''
      \<and> usedSpace example_node = 6 \<and> usedSpace s' = 7
      \<and> settled r = Resolved
      \<and> snd (pipelineDone example_sniff
                ((reserve example_node 3)\<lparr>disk := [(''d/a'', example_gif), (''d/b'', [1, 2])]\<rparr>)
                ''b'' 3 2 2 None) = None"
    using free(1)
    by (simp add: handleNewContent_def evictIfRequired_def streamContent_def pipelineDone_def
        onData_def resolve_def Let_def drop_def exists_def existsSync_def fileSize_def
        statSyncSize_def unlinkSync_def writeFile_def reserve_def path_def usedSpace_def
        example_node_def)
  have second: "\<exists>r s'. handleNewContent example_sniff example_empty ''p'' 8
              \<lparr>chunks = [png_signature], failure = None\<rparr> = Some r
      \<and> pipelineErr r = None \<and> recieved r = 8 \<and> written r = 8
      \<and> final r = Threw (StreamError ''End-Of-Stream'') s'
      \<and> exists s' ''p''
      \<and> ''p'' \<notin> set (getCachedObjectsIds (stateCache s'))"
    using free(2)
    by (simp add: handleNewContent_def evictIfRequired_def streamContent_def pipelineDone_def
        onData_def resolve_def Let_def detectMimeType_def fromFile_def example_sniff_def
        png_signature_def exists_def existsSync_def writeFile_def reserve_def path_def
        getCachedObjectsIds_def example_empty_def)
  from first second show ?thesis by simp
qed

subsection \<open>Startup reconciliation of a file\<close>

lemma addFileSize_simps [simp]:
  "disk (addFileSize s n) = disk s"
  "stateCache (addFileSize s n) = stateCache s"
  "dataDir (addFileSize s n) = dataDir s"
  "limitsStorage (addFileSize s n) = limitsStorage s"
  "contentSizeSum (addFileSize s n) = contentSizeSum s + n"
  "path (addFileSize s n) objectId = path s objectId"
  by (simp_all add: addFileSize_def path_def)

text \<open>
  C4, as amended. A file whose size differs from the size the authority expects is deleted
  during startup reconciliation and the used space ends without it: its size is first
  added to the counter (line 271) and then taken off again by \<^verbatim>\<open>drop\<close>, so the counter
  ends where it was before the file was looked at. Its index entry is dropped as well.
\<close>

theorem startupFile_size_mismatch:
  assumes stored: "map_of (disk s) (path s objectId) = Some bs"
    and listed: "supportedObjects objectId = Some dataObjectSize"
    and differs: "int (length bs) \<noteq> dataObjectSize"
  shows "startupFile sniff supportedObjects s objectId
           = drop (addFileSize s (int (length bs))) objectId
     \<and> contentSizeSum (addFileSize s (int (length bs))) = contentSizeSum s + int (length bs)
     \<and> (\<exists>s'. startupFile sniff supportedObjects s objectId = Ok s'
           \<and> \<not> exists s' objectId
           \<and> disk s' = AList.delete (path s objectId) (disk s)
           \<and> contentSizeSum s' = contentSizeSum s
           \<and> stateCache s' = dropById (stateCache s) objectId)"
proof -
  let ?s1 = "addFileSize s (int (length bs))"
  have run: "startupFile sniff supportedObjects s objectId = drop ?s1 objectId"
    using assms by (simp add: startupFile_def checkFile_def fileSize_def statSyncSize_def)
  have sz: "onDiskSize ?s1 objectId = int (length bs)"
    using stored by (simp add: onDiskSize_def fileSize_def statSyncSize_def)
  obtain s' where "drop ?s1 objectId = Ok s'" "\<not> exists s' objectId"
    "stateCache s' = dropById (stateCache ?s1) objectId"
    "disk s' = AList.delete (path ?s1 objectId) (disk ?s1)"
    "contentSizeSum s' = contentSizeSum ?s1 - onDiskSize ?s1 objectId"
    using drop_result [of ?s1 objectId] by blast
  with run sz show ?thesis by simp
qed

theorem startupFile_size_mismatch_witness:
  "map_of (disk example_node) (path example_node ''a'') = Some example_gif
   \<and> [''a'' \<mapsto> 5] ''a'' = Some (5::int)
   \<and> int (length example_gif) \<noteq> 5
   \<and> startupFile example_sniff [''a'' \<mapsto> 5] example_node ''a''
       = Ok (example_node\<lparr>disk := [],
                           stateCache := dropById (stateCache example_node) ''a''\<rparr>)"
proof -
  have h: "map_of (disk example_node) (path example_node ''a'') = Some example_gif"
    "[''a'' \<mapsto> 5] ''a'' = Some (5::int)"
    "int (length example_gif) \<noteq> 5"
    by (simp_all add: example_gif_def)
  have "\<exists>s'. startupFile example_sniff [''a'' \<mapsto> 5] example_node ''a'' = Ok s'
           \<and> disk s' = [] \<and> contentSizeSum s' = contentSizeSum example_node
           \<and> stateCache s' = dropById (stateCache example_node) ''a''
           \<and> dataDir s' = dataDir example_node \<and> limitsStorage s' = limitsStorage example_node"
    using h startupFile_size_mismatch
        [where s = example_node and objectId = "''a''" and bs = example_gif
           and supportedObjects = "[''a'' \<mapsto> 5]" and dataObjectSize = 5
           and sniff = example_sniff]
      drop_result [of "addFileSize example_node (int (length example_gif))" "''a''"]
    by auto
  then obtain s' where s': "startupFile example_sniff [''a'' \<mapsto> 5] example_node ''a'' = Ok s'"
    "disk s' = []" "contentSizeSum s' = contentSizeSum example_node"
    "stateCache s' = dropById (stateCache example_node) ''a''"
    "dataDir s' = dataDir example_node" "limitsStorage s' = limitsStorage example_node"
    by blast
  have "s' = example_node\<lparr>disk := [], stateCache := dropById (stateCache example_node) ''a''\<rparr>"
    using s'(2-6) by (cases s') (simp add: example_node_def)
  with h s'(1) show ?thesis by simp
qed

text \<open>
  C4 as stated fails: the size is accumulated. With the counter at 0, a 6-byte file
  the authority expects to have 5 bytes is dropped from a state whose counter is 6.
\<close>

theorem size_added_before_drop:
  "fileSize (example_node\<lparr>contentSizeSum := 0\<rparr>) ''a'' = Inr 6
   \<and> [''a'' \<mapsto> 5] ''a'' = Some (5::int)
   \<and> startupFile example_sniff [''a'' \<mapsto> 5] (example_node\<lparr>contentSizeSum := 0\<rparr>) ''a''
       = drop (addFileSize (example_node\<lparr>contentSizeSum := 0\<rparr>) 6) ''a''
   \<and> contentSizeSum (example_node\<lparr>contentSizeSum := 0\<rparr>) = 0
   \<and> contentSizeSum (addFileSize (example_node\<lparr>contentSizeSum := 0\<rparr>) 6) = 6"
  by (simp add: startupFile_def checkFile_def fileSize_def statSyncSize_def example_gif_def
      path_def)
    (simp add: example_node_def)

subsection \<open>A source that sends too much\<close>

text \<open>
  After an overflow the write is aborted with the too-much-data error and no file is
  left, but \<^verbatim>\<open>drop\<close> takes the size of the partial file off the counter, not the
  reserved size: the counter ends below the value it had before the reservation.
\<close>

lemma handleNewContent_overflow:
  assumes evicted: "evictIfRequired s expectedSize = Some (Ok s1)"
    and nonneg: "0 \<le> expectedSize"
    and more: "expectedSize < int (length (concat (chunks dataStream)))"
  shows "\<exists>r s'. handleNewContent sniff s objectId expectedSize dataStream = Some r
           \<and> final r = Ok s' \<and> pipelineErr r = Some tooMuchData
           \<and> \<not> exists s' objectId
           \<and> usedSpace s' = usedSpace s1 + expectedSize - written r
           \<and> usedSpace s' < usedSpace s1"
proof -
  let ?s2 = "reserve s1 expectedSize"
  obtain w where w: "expectedSize < int (length w)"
    "streamContent sniff ?s2 objectId expectedSize dataStream =
       \<lparr>final = Ok (?s2\<lparr>disk := AList.delete (path ?s2 objectId)
                                   (writeFile (disk ?s2) (path ?s2 objectId) w),
                        contentSizeSum := contentSizeSum ?s2 - int (length w),
                        stateCache := dropById (stateCache ?s2) objectId\<rparr>),
        settled = Resolved, pipelineErr = Some tooMuchData,
        recieved = int (length w), written = int (length w)\<rparr>"
    using streamContent_overflow [OF nonneg more, of sniff ?s2 objectId] by blast
  have run: "handleNewContent sniff s objectId expectedSize dataStream
               = Some (streamContent sniff ?s2 objectId expectedSize dataStream)"
    using evicted by (simp add: handleNewContent_def evictIfRequired_def)
  show ?thesis
    using w
    by (simp add: run exists_iff delete_conv usedSpace_def reserve_def)
qed

text \<open>
  C1, evaluated on a source that sends too much: expected size 3, one chunk of 4 bytes,
  used space 6 before the reservation. The write is aborted with the too-much-data error
  and no file is left, but the used space ends at 5 and not at 6.
\<close>

theorem overflow_counter_not_restored:
  "\<exists>r s'. handleNewContent example_sniff example_node ''b'' 3
              \<lparr>chunks = [[1, 2, 3, 4]], failure = None\<rparr> = Some r
      \<and> final r = Ok s' \<and> pipelineErr r = Some tooMuchData
      \<and> \<not> exists s' ''b''
      \<and> usedSpace example_node = 6
      \<and> usedSpace s' = 5"
proof -
  have free: "\<not> freeSpace example_node < 3"
    by (simp add: freeSpace_def example_node_def)
  show ?thesis
    using free
    by (simp add: handleNewContent_def evictIfRequired_def streamContent_def pipelineDone_def onData_def
        resolve_def reject_def Let_def drop_def exists_def existsSync_def fileSize_def
        statSyncSize_def unlinkSync_def writeFile_def reserve_def path_def usedSpace_def
        example_node_def)
qed

subsection \<open>Ingesting an identifier that is already stored\<close>

lemma onDiskSize_frame:
  "dataDir s' = dataDir s \<Longrightarrow>
   map_of (disk s') (path s objectId) = map_of (disk s) (path s objectId) \<Longrightarrow>
   onDiskSize s' objectId = onDiskSize s objectId"
  by (simp add: onDiskSize_def fileSize_def statSyncSize_def path_def)

lemma onDiskSize_nonneg: "0 \<le> onDiskSize s objectId"
  by (simp add: onDiskSize_def fileSize_def statSyncSize_def split: option.splits)

lemma sum_list_removeAll_le:
  "0 \<le> f c \<Longrightarrow> sum_list (map f (removeAll c xs)) \<le> (sum_list (map f xs) :: int)"
  by (induction xs) auto

lemma sum_list_removeAll_member:
  "c \<in> set xs \<Longrightarrow> 0 \<le> f c \<Longrightarrow>
   sum_list (map f (removeAll c xs)) \<le> (sum_list (map f xs) :: int) - f c"
proof (induction xs)
  case Nil
  then show ?case by simp
next
  case (Cons x xs)
  show ?case
  proof (cases "x = c")
    case True
    then show ?thesis
      using sum_list_removeAll_le [of f c xs] Cons.prems(2) by simp
  next
    case False
    then show ?thesis
      using Cons by simp
  qed
qed

lemma candidate_tracked:
  "getCacheEvictCandidateObjectId c = Some objectId \<Longrightarrow>
   objectId \<in> set (getCachedObjectsIds c)"
proof -
  assume a: "getCacheEvictCandidateObjectId c = Some objectId"
  let ?free = "filter (\<lambda>i. i \<notin> set (pendingDownloads c)) (getCachedObjectsIds c)"
  from a have "objectId \<in> set ?free"
    by (cases ?free) (auto simp: getCacheEvictCandidateObjectId_def)
  then show ?thesis by simp
qed

lemma drop_keeps_sum_below:
  assumes tracked: "objectId \<in> set (getCachedObjectsIds (stateCache s))"
    and dropped: "drop s objectId = Ok s'"
    and below: "committedSum s \<le> usedSpace s"
  shows "committedSum s' \<le> usedSpace s'"
proof -
  have s': "stateCache s' = dropById (stateCache s) objectId"
    "disk s' = AList.delete (path s objectId) (disk s)"
    "contentSizeSum s' = contentSizeSum s - onDiskSize s objectId"
    "dataDir s' = dataDir s"
    using drop_result [of s objectId] dropped by auto
  have ids: "getCachedObjectsIds (stateCache s')
               = removeAll objectId (getCachedObjectsIds (stateCache s))"
    by (simp add: s'(1) getCachedObjectsIds_def dropById_def delete_keys)
  have same: "onDiskSize s' i = onDiskSize s i" if "i \<noteq> objectId" for i
    using that s'(2,4) by (intro onDiskSize_frame) (simp_all add: delete_conv)
  have others: "map (onDiskSize s') (removeAll objectId xs)
                  = map (onDiskSize s) (removeAll objectId xs)" for xs
    using same by (induction xs) simp_all
  have "committedSum s'
        = sum_list (map (onDiskSize s)
            (removeAll objectId (getCachedObjectsIds (stateCache s))))"
    by (simp only: committedSum_def ids others)
  also have "\<dots> \<le> committedSum s - onDiskSize s objectId"
    unfolding committedSum_def
    using tracked onDiskSize_nonneg by (rule sum_list_removeAll_member)
  finally show ?thesis
    using below s'(3) by (simp add: usedSpace_def)
qed

lemma evict_keeps_sum_below:
  assumes returns: "evictCacheUntilFreeSpaceReached s targetFreeSpace = Some out"
  shows "\<forall>s1. out = Ok s1 \<longrightarrow> committedSum s \<le> usedSpace s
           \<longrightarrow> committedSum s1 \<le> usedSpace s1"
proof (rule evictCacheUntilFreeSpaceReached.raw_induct
    [where P = "\<lambda>s t out. \<forall>s1. out = Ok s1 \<longrightarrow> committedSum s \<le> usedSpace s
                                \<longrightarrow> committedSum s1 \<le> usedSpace s1", OF _ returns])
  fix evict :: "node \<Rightarrow> int \<Rightarrow> outcome option" and s t out
  assume IH: "\<And>s t out. evict s t = Some out \<Longrightarrow>
                \<forall>s1. out = Ok s1 \<longrightarrow> committedSum s \<le> usedSpace s
                       \<longrightarrow> committedSum s1 \<le> usedSpace s1"
    and body: "(if freeSpace s < t then
                  (case getCacheEvictCandidateObjectId (stateCache s) of
                     None \<Rightarrow> evict s t
                   | Some evictCandidateId \<Rightarrow>
                       if evictCandidateId \<noteq> [] then
                         (case drop s evictCandidateId of
                            Ok s' \<Rightarrow> evict s' t
                          | Threw e s' \<Rightarrow> Some (Threw e s'))
                       else evict s t)
                else Some (Ok s)) = Some out"
  show "\<forall>s1. out = Ok s1 \<longrightarrow> committedSum s \<le> usedSpace s
              \<longrightarrow> committedSum s1 \<le> usedSpace s1"
  proof (cases "freeSpace s < t")
    case False
    with body show ?thesis by auto
  next
    case True
    show ?thesis
    proof (cases "getCacheEvictCandidateObjectId (stateCache s)")
      case None
      with True body have "evict s t = Some out" by simp
      then show ?thesis by (rule IH)
    next
      case (Some c)
      show ?thesis
      proof (cases "c = []")
        case True
        with \<open>freeSpace s < t\<close> Some body have "evict s t = Some out" by simp
        then show ?thesis by (rule IH)
      next
        case False
        obtain s' where d: "drop s c = Ok s'"
          using drop_result [of s c] by blast
        have "evict s' t = Some out"
          using body True Some False d by simp
        then have step: "\<forall>s1. out = Ok s1 \<longrightarrow> committedSum s' \<le> usedSpace s'
                           \<longrightarrow> committedSum s1 \<le> usedSpace s1"
          by (rule IH)
        have "committedSum s \<le> usedSpace s \<Longrightarrow> committedSum s' \<le> usedSpace s'"
          using candidate_tracked [OF Some] d by (rule drop_keeps_sum_below)
        with step show ?thesis by blast
      qed
    qed
  qed
qed

lemma evictIfRequired_keeps_sum_below:
  "evictIfRequired s expectedSize = Some (Ok s1) \<Longrightarrow>
   committedSum s \<le> usedSpace s \<Longrightarrow> committedSum s1 \<le> usedSpace s1"
  using evict_keeps_sum_below [of s expectedSize "Ok s1"]
  by (auto simp: evictIfRequired_def split: if_splits)

text \<open>
  C9, as amended. \<^verbatim>\<open>handleNewContent\<close> does not look at whether the identifier is already
  present: the reservation adds the expected size to the counter in any case. Starting
  where the committed sum does not exceed the used space (as when they are equal), take a
  second successful ingestion of an identifier and size (the source delivers exactly
  that many bytes, ends cleanly, and type detection does not reject), the size positive,
  where the object is still on disk with that size and tracked once the eviction step is
  over (eviction, if it ran, did not evict it). Then the used space grows by the expected size
  while the committed sum stays the same, and the used space ends strictly above the
  committed sum.
\<close>

theorem reingest_breaks_committedSum:
  assumes positive: "0 < expectedSize"
    and counted: "committedSum s \<le> usedSpace s"
    and evicted: "evictIfRequired s expectedSize = Some (Ok s1)"
    and stored: "fileSize s1 objectId = Inr expectedSize"
    and tracked: "objectId \<in> set (getCachedObjectsIds (stateCache s1))"
    and len: "int (length (concat (chunks dataStream))) = expectedSize"
    and clean: "failure dataStream = None"
    and detected: "sniff (concat (chunks dataStream)) = Inr res"
  shows "\<exists>r s' m. handleNewContent sniff s objectId expectedSize dataStream = Some r
           \<and> final r = Ok s' \<and> pipelineErr r = None
           \<and> committed (stateCache s') objectId expectedSize m
           \<and> usedSpace s' = usedSpace s1 + expectedSize
           \<and> committedSum s' = committedSum s1
           \<and> committedSum s' < usedSpace s'"
proof -
  let ?s2 = "reserve s1 expectedSize"
  let ?bs = "concat (chunks dataStream)"
  obtain m where stream:
    "streamContent sniff ?s2 objectId expectedSize dataStream =
       \<lparr>final = Ok (?s2\<lparr>disk := writeFile (disk ?s2) (path ?s2 objectId) ?bs,
                        stateCache :=
                          setContentMimeType
                            (newContent (dropPendingDownload (stateCache ?s2) objectId)
                               objectId expectedSize) objectId m\<rparr>),
        settled = Resolved, pipelineErr = None,
        recieved = expectedSize, written = expectedSize\<rparr>"
    using streamContent_exact [of dataStream expectedSize sniff res ?s2 objectId]
      len clean detected by blast
  let ?s' = "?s2\<lparr>disk := writeFile (disk ?s2) (path ?s2 objectId) ?bs,
                  stateCache :=
                    setContentMimeType
                      (newContent (dropPendingDownload (stateCache ?s2) objectId)
                         objectId expectedSize) objectId m\<rparr>"
  have run: "handleNewContent sniff s objectId expectedSize dataStream =
       Some \<lparr>final = Ok ?s', settled = Resolved, pipelineErr = None,
             recieved = expectedSize, written = expectedSize\<rparr>"
    using evicted stream by (simp add: handleNewContent_def)
  have ids: "getCachedObjectsIds (stateCache ?s') = getCachedObjectsIds (stateCache s1)"
    using tracked
    by (simp add: getCachedObjectsIds_def setContentMimeType_def newContent_def
        dropPendingDownload_def reserve_def update_keys)
  have same: "onDiskSize ?s' i = onDiskSize s1 i" for i
  proof (cases "i = objectId")
    case True
    have "fileSize ?s' objectId = Inr expectedSize"
      using len by (simp add: fileSize_def statSyncSize_def path_def reserve_def)
    with stored True show ?thesis by (simp add: onDiskSize_def)
  next
    case False
    then show ?thesis
      by (intro onDiskSize_frame) (simp_all add: reserve_def path_def)
  qed
  have eq: "onDiskSize ?s' = onDiskSize s1"
    by (rule ext) (rule same)
  have sum: "committedSum ?s' = committedSum s1"
    by (simp only: committedSum_def ids eq)
  have used: "usedSpace ?s' = usedSpace s1 + expectedSize"
    by (simp add: usedSpace_def reserve_def)
  have c: "committed (stateCache ?s') objectId expectedSize m"
    by (simp add: committed_after)
  have "committedSum s1 \<le> usedSpace s1"
    using evicted counted by (rule evictIfRequired_keeps_sum_below)
  then have gt: "committedSum ?s' < usedSpace ?s'"
    using sum used positive by simp
  from run c used sum gt show ?thesis
    by (intro exI [of _ ?s'] exI [of _ m]
        exI [of _ "\<lparr>final = Ok ?s', settled = Resolved, pipelineErr = None,
                     recieved = expectedSize, written = expectedSize\<rparr>"]) simp
qed

lemmas store_defs =
  exists_def existsSync_def fileSize_def statSyncSize_def unlinkSync_def writeFile_def
  path_def usedSpace_def freeSpace_def reserve_def onDiskSize_def committedSum_def

lemmas index_defs =
  getCachedObjectsIds_def getContentMimeType_def setContentMimeType_def dropById_def
  dropPendingDownload_def newContent_def getCacheEvictCandidateObjectId_def

lemmas stream_defs =
  streamContent_def pipelineDone_def onData_def resolve_def reject_def Let_def
  detectMimeType_def fromFile_def

lemma example_committedSum: "committedSum example_node = 6"
  by (simp add: store_defs index_defs example_gif_def example_node_def)

theorem reingest_breaks_committedSum_witness:
  "committedSum example_pair \<le> usedSpace example_pair
   \<and> evictIfRequired example_pair 3 = Some (Ok example_pair_evicted)
   \<and> fileSize example_pair_evicted ''a'' = Inr 3
   \<and> ''a'' \<in> set (getCachedObjectsIds (stateCache example_pair_evicted))
   \<and> (\<exists>r s'. handleNewContent example_sniff example_pair ''a'' 3
                 \<lparr>chunks = [[5, 6], [7]], failure = None\<rparr> = Some r
          \<and> final r = Ok s' \<and> usedSpace s' = 6 \<and> committedSum s' = 3)"
proof -
  have low: "freeSpace example_pair < 3"
    by (simp add: freeSpace_def example_pair_def)
  have cand: "getCacheEvictCandidateObjectId (stateCache example_pair) = Some ''o''"
    by (simp add: index_defs example_pair_def)
  have dropped: "drop example_pair ''o'' = Ok example_pair_evicted"
    by (simp add: drop_def store_defs index_defs example_pair_def example_pair_evicted_def)
  have enough: "\<not> freeSpace example_pair_evicted < 3"
    by (simp add: freeSpace_def example_pair_evicted_def)
  have evicted: "evictIfRequired example_pair 3 = Some (Ok example_pair_evicted)"
    using low evict_step [OF low cand _ dropped] evict_enough [OF enough]
    by (simp add: evictIfRequired_def)
  have sums: "committedSum example_pair = 7" "usedSpace example_pair = 7"
    "committedSum example_pair_evicted = 3" "usedSpace example_pair_evicted = 3"
    by (simp_all add: store_defs index_defs example_pair_def example_pair_evicted_def)
  have h: "(0::int) < 3" "committedSum example_pair \<le> usedSpace example_pair"
    "evictIfRequired example_pair 3 = Some (Ok example_pair_evicted)"
    "fileSize example_pair_evicted ''a'' = Inr 3"
    "''a'' \<in> set (getCachedObjectsIds (stateCache example_pair_evicted))"
    "int (length (concat (chunks \<lparr>chunks = [[5, 6], [7::8 word]], failure = None\<rparr>))) = 3"
    "failure \<lparr>chunks = [[5, 6], [7::8 word]], failure = None\<rparr> = None"
    "example_sniff (concat (chunks \<lparr>chunks = [[5, 6], [7::8 word]], failure = None\<rparr>))
       = Inr None"
    using evicted sums
    by (simp_all add: store_defs index_defs example_pair_evicted_def example_sniff_def
        png_signature_def)
  show ?thesis
    using h sums
      reingest_breaks_committedSum
        [where expectedSize = 3 and s = example_pair and ?s1.0 = example_pair_evicted
           and objectId = "''a''" and dataStream = "\<lparr>chunks = [[5, 6], [7]], failure = None\<rparr>"
           and sniff = example_sniff and res = None]
    by auto
qed

text \<open>
  C9 as stated fails in two cases. When the free space is too small, eviction can
  drop the very object that is being ingested again, and the used space then ends equal
  to the committed sum; and for an object of size 0 the reservation adds nothing.
\<close>

theorem reingest_after_eviction_keeps_sum:
  "usedSpace example_node = committedSum example_node
   \<and> fileSize example_node ''a'' = Inr 6
   \<and> ''a'' \<in> set (getCachedObjectsIds (stateCache example_node))
   \<and> (\<exists>r s'. handleNewContent example_sniff example_node ''a'' 6
                 \<lparr>chunks = [example_gif], failure = None\<rparr> = Some r
          \<and> final r = Ok s' \<and> pipelineErr r = None
          \<and> usedSpace s' = 6 \<and> committedSum s' = 6
          \<and> \<not> committedSum s' < usedSpace s')
   \<and> usedSpace example_empty = committedSum example_empty
   \<and> fileSize example_empty ''z'' = Inr 0
   \<and> ''z'' \<in> set (getCachedObjectsIds (stateCache example_empty))
   \<and> (\<exists>r s'. handleNewContent example_sniff example_empty ''z'' 0
                 \<lparr>chunks = [], failure = None\<rparr> = Some r
          \<and> final r = Ok s' \<and> pipelineErr r = None
          \<and> \<not> committedSum s' < usedSpace s')"
proof -
  let ?s1 = "example_node\<lparr>disk := AList.delete (path example_node ''a'') (disk example_node),
                contentSizeSum := contentSizeSum example_node - int (length example_gif),
                stateCache := dropById (stateCache example_node) ''a''\<rparr>"
  have pre: "usedSpace example_node = committedSum example_node"
    "fileSize example_node ''a'' = Inr 6"
    "''a'' \<in> set (getCachedObjectsIds (stateCache example_node))"
    unfolding example_committedSum
    by (simp_all add: store_defs index_defs example_gif_def example_node_def)
  have low: "freeSpace example_node < 6"
    by (simp add: freeSpace_def example_node_def)
  have cand: "getCacheEvictCandidateObjectId (stateCache example_node) = Some ''a''"
    by (simp add: getCacheEvictCandidateObjectId_def getCachedObjectsIds_def example_node_def)
  have dropped: "drop example_node ''a'' = Ok ?s1"
    by (intro drop_present) simp
  have enough: "\<not> freeSpace ?s1 < 6"
    by (simp add: freeSpace_def example_node_def example_gif_def)
  have evicted: "evictCacheUntilFreeSpaceReached example_node 6 = Some (Ok ?s1)"
    using evict_step [OF low cand _ dropped] evict_enough [OF enough] by simp
  have run: "handleNewContent example_sniff example_node ''a'' 6
                 \<lparr>chunks = [example_gif], failure = None\<rparr>
             = Some (streamContent example_sniff (reserve ?s1 6) ''a'' 6
                 \<lparr>chunks = [example_gif], failure = None\<rparr>)"
    using low evicted by (simp add: handleNewContent_def evictIfRequired_def)
  have first: "\<exists>r s'. handleNewContent example_sniff example_node ''a'' 6
                 \<lparr>chunks = [example_gif], failure = None\<rparr> = Some r
          \<and> final r = Ok s' \<and> pipelineErr r = None
          \<and> usedSpace s' = 6 \<and> committedSum s' = 6
          \<and> \<not> committedSum s' < usedSpace s'"
    unfolding run
    by (simp add: stream_defs store_defs index_defs example_sniff_def example_gif_def
        png_signature_def example_node_def)
  have second: "usedSpace example_empty = committedSum example_empty
     \<and> fileSize example_empty ''z'' = Inr 0
     \<and> ''z'' \<in> set (getCachedObjectsIds (stateCache example_empty))
     \<and> (\<exists>r s'. handleNewContent example_sniff example_empty ''z'' 0
                 \<lparr>chunks = [], failure = None\<rparr> = Some r
          \<and> final r = Ok s' \<and> pipelineErr r = None
          \<and> \<not> committedSum s' < usedSpace s')"
    by (simp add: handleNewContent_def evictIfRequired_def stream_defs store_defs index_defs
        example_sniff_def png_signature_def example_empty_def)
  from pre first second show ?thesis by simp
qed

subsection \<open>The used space after startup reconciliation\<close>

text \<open>
  Over the whole first loop, when detection never rejects: every file of the data
  directory is visited once, and the counter grows by the sizes of exactly those files
  whose size the authority agrees with; the others are gone afterwards.
\<close>

lemma startupFile_result:
  assumes stored: "exists s objectId"
    and returns: "\<And>bs. \<exists>res. sniff bs = Inr res"
  shows "\<exists>s'. startupFile sniff supportedObjects s objectId = Ok s'
           \<and> dataDir s' = dataDir s
           \<and> contentSizeSum s' = contentSizeSum s + countedSize supportedObjects s objectId
           \<and> disk s' = (if sizeAgrees supportedObjects s objectId then disk s
                         else AList.delete (path s objectId) (disk s))"
proof -
  obtain bs where bs: "map_of (disk s) (path s objectId) = Some bs"
    using stored by (auto simp: exists_iff)
  let ?n = "int (length bs)"
  let ?s1 = "addFileSize s ?n"
  have size: "fileSize s objectId = Inr ?n" "onDiskSize s objectId = ?n"
    "onDiskSize ?s1 objectId = ?n"
    using bs by (simp_all add: onDiskSize_def fileSize_def statSyncSize_def)
  have run: "startupFile sniff supportedObjects s objectId
               = checkFile sniff supportedObjects ?s1 objectId ?n"
    using size(1) by (simp add: startupFile_def)
  obtain d where d: "drop ?s1 objectId = Ok d" "dataDir d = dataDir s"
    "contentSizeSum d = contentSizeSum s"
    "disk d = AList.delete (path s objectId) (disk s)"
    using drop_result [of ?s1 objectId] size(3) by auto
  show ?thesis
  proof (cases "sizeAgrees supportedObjects s objectId")
    case False
    then have "checkFile sniff supportedObjects ?s1 objectId ?n = drop ?s1 objectId"
      using size(1) by (auto simp: checkFile_def sizeAgrees_def split: option.splits)
    with False d run show ?thesis
      by (simp add: countedSize_def)
  next
    case True
    then have listed: "supportedObjects objectId = Some ?n"
      using size(1) by (simp add: sizeAgrees_def)
    obtain res where "sniff bs = Inr res"
      using returns by blast
    then obtain m where m: "detectMimeType sniff ?s1 objectId = Inr m"
      using detectMimeType_stored [of ?s1 objectId bs sniff res] bs by auto
    have "\<exists>c. checkFile sniff supportedObjects ?s1 objectId ?n = Ok (?s1\<lparr>stateCache := c\<rparr>)"
    proof (cases "getContentMimeType (stateCache s) objectId \<in> {None, Some []}")
      case True
      then have "checkFile sniff supportedObjects ?s1 objectId ?n
                   = Ok (?s1\<lparr>stateCache := setContentMimeType (stateCache ?s1) objectId m\<rparr>)"
        using listed m by (simp add: checkFile_def)
      then show ?thesis by blast
    next
      case False
      then have "checkFile sniff supportedObjects ?s1 objectId ?n
                   = Ok (?s1\<lparr>stateCache := stateCache ?s1\<rparr>)"
        using listed by (auto simp: checkFile_def)
      then show ?thesis by blast
    qed
    then obtain c where "checkFile sniff supportedObjects ?s1 objectId ?n
                           = Ok (?s1\<lparr>stateCache := c\<rparr>)" ..
    with True run size(2) show ?thesis
      by (simp add: countedSize_def)
  qed
qed

lemma sizeAgrees_frame:
  "dataDir s' = dataDir s \<Longrightarrow>
   map_of (disk s') (path s objectId) = map_of (disk s) (path s objectId) \<Longrightarrow>
   sizeAgrees supportedObjects s' objectId = sizeAgrees supportedObjects s objectId"
  by (simp add: sizeAgrees_def fileSize_def statSyncSize_def path_def)

lemma exists_frame:
  "dataDir s' = dataDir s \<Longrightarrow>
   map_of (disk s') (path s objectId) = map_of (disk s) (path s objectId) \<Longrightarrow>
   exists s' objectId = exists s objectId"
  by (simp add: exists_iff path_def)

lemma startupFiles_result:
  assumes "distinct ids" and "\<forall>i\<in>set ids. exists s i"
    and returns: "\<And>bs. \<exists>res. sniff bs = Inr res"
  shows "\<exists>s'. startupFiles sniff supportedObjects s ids = Ok s'
           \<and> dataDir s' = dataDir s
           \<and> contentSizeSum s'
               = contentSizeSum s + sum_list (map (countedSize supportedObjects s) ids)
           \<and> (\<forall>i. map_of (disk s') (path s i)
                   = (if i \<in> set ids \<and> \<not> sizeAgrees supportedObjects s i then None
                      else map_of (disk s) (path s i)))"
  using assms
proof (induction ids arbitrary: s)
  case Nil
  then show ?case by simp
next
  case (Cons objectId rest)
  obtain s1 where s1: "startupFile sniff supportedObjects s objectId = Ok s1"
    "dataDir s1 = dataDir s"
    "contentSizeSum s1 = contentSizeSum s + countedSize supportedObjects s objectId"
    "disk s1 = (if sizeAgrees supportedObjects s objectId then disk s
                else AList.delete (path s objectId) (disk s))"
    using startupFile_result [of s objectId sniff supportedObjects] Cons.prems(2,3) by auto
  have p: "path s1 i = path s i" for i
    using s1(2) by (simp add: path_def)
  have d1: "map_of (disk s1) (path s i)
              = (if i = objectId \<and> \<not> sizeAgrees supportedObjects s objectId then None
                 else map_of (disk s) (path s i))" for i
    using s1(4) by (simp add: delete_conv)
  have other: "map_of (disk s1) (path s i) = map_of (disk s) (path s i)" if "i \<in> set rest" for i
    using that Cons.prems(1) d1 by auto
  have agree: "sizeAgrees supportedObjects s1 i = sizeAgrees supportedObjects s i"
    if "i \<in> set rest" for i
    using sizeAgrees_frame [OF s1(2) other [OF that]] .
  have counted: "countedSize supportedObjects s1 i = countedSize supportedObjects s i"
    if "i \<in> set rest" for i
    using agree [OF that] onDiskSize_frame [OF s1(2) other [OF that]]
    by (simp add: countedSize_def)
  have ex: "\<forall>i\<in>set rest. exists s1 i"
    using Cons.prems(2) exists_frame [OF s1(2) other] by simp
  obtain s' where s': "startupFiles sniff supportedObjects s1 rest = Ok s'"
    "dataDir s' = dataDir s1"
    "contentSizeSum s'
       = contentSizeSum s1 + sum_list (map (countedSize supportedObjects s1) rest)"
    "\<forall>i. map_of (disk s') (path s1 i)
           = (if i \<in> set rest \<and> \<not> sizeAgrees supportedObjects s1 i then None
              else map_of (disk s1) (path s1 i))"
    using Cons.IH [of s1] Cons.prems(1,3) ex by auto
  have sums: "map (countedSize supportedObjects s1) rest
                = map (countedSize supportedObjects s) rest"
    using counted by simp
  have disk': "map_of (disk s') (path s i)
                 = (if i \<in> set (objectId # rest) \<and> \<not> sizeAgrees supportedObjects s i then None
                    else map_of (disk s) (path s i))" for i
    using s'(4) [rule_format, of i] agree [of i] d1 [of i] by (auto simp: p)
  show ?case
    using s1(1,2,3) s'(1,2,3) sums disk' by simp
qed

lemma entryName_path: "entryName dir p = Some name \<Longrightarrow> p = dir @ ''/'' @ name"
proof -
  assume a: "entryName dir p = Some name"
  then have "take (length dir + 1) p = dir @ ''/''" "List.drop (length dir + 1) p = name"
    by (auto simp: entryName_def Let_def split: if_splits)
  then show ?thesis
    using append_take_drop_id [of "length dir + 1" p] by simp
qed

lemma readdirSync_Cons:
  "readdirSync ((p, bs) # fs) dir =
     (case entryName dir p of None \<Rightarrow> readdirSync fs dir
      | Some name \<Rightarrow> name # readdirSync fs dir)"
  by (simp add: readdirSync_def split: option.splits)

lemma readdirSync_listed:
  "name \<in> set (readdirSync fs dir) \<Longrightarrow> dir @ ''/'' @ name \<in> fst ` set fs"
proof (induction fs)
  case Nil
  then show ?case by (simp add: readdirSync_def)
next
  case (Cons f fs)
  obtain p bs where f: "f = (p, bs)" by (cases f)
  show ?case
  proof (cases "entryName dir p")
    case None
    with Cons f show ?thesis by (simp add: readdirSync_Cons)
  next
    case (Some n)
    with Cons f entryName_path [OF Some] show ?thesis
      by (auto simp: readdirSync_Cons)
  qed
qed

lemma readdirSync_distinct:
  "distinct (map fst fs) \<Longrightarrow> distinct (readdirSync fs dir)"
proof (induction fs)
  case Nil
  then show ?case by (simp add: readdirSync_def)
next
  case (Cons f fs)
  obtain p bs where f: "f = (p, bs)" by (cases f)
  show ?case
  proof (cases "entryName dir p")
    case None
    with Cons f show ?thesis by (simp add: readdirSync_Cons)
  next
    case (Some n)
    have "n \<notin> set (readdirSync fs dir)"
      using readdirSync_listed [of n fs dir] entryName_path [OF Some] Cons.prems f by auto
    with Cons f Some show ?thesis by (simp add: readdirSync_Cons)
  qed
qed

lemma readdirSync_exists:
  "objectId \<in> set (readdirSync (disk s) (dataDir s)) \<Longrightarrow> exists s objectId"
  using readdirSync_listed [of objectId "disk s" "dataDir s"]
  by (auto simp: exists_iff path_def dest: weak_map_of_SomeI)

lemma startupCacheItems_keeps [simp]:
  "dataDir (startupCacheItems s ids) = dataDir s"
  "disk (startupCacheItems s ids) = disk s"
  "contentSizeSum (startupCacheItems s ids) = contentSizeSum s"
  by (induction ids arbitrary: s) simp_all

text \<open>
  With a well-formed file system (no path listed twice) and a sniffer that never rejects,
  startup reconciliation returns, the used space has grown by the sizes of the files that
  agree with the authority, and no file that disagrees is left. (A rejection of the
  detection ends the reconciliation where it stands.)
\<close>

lemma startupInit_usedSpace:
  assumes "distinct (map fst (disk s))"
    and returns: "\<And>bs. \<exists>res. sniff bs = Inr res"
  shows "\<exists>s'. startupInit sniff (Inr supportedObjects) s = Ok s'
           \<and> usedSpace s' = usedSpace s
                + sum_list (map (countedSize supportedObjects s)
                     (readdirSync (disk s) (dataDir s)))
           \<and> (\<forall>objectId. objectId \<in> set (readdirSync (disk s) (dataDir s))
                  \<and> \<not> sizeAgrees supportedObjects s objectId
                \<longrightarrow> \<not> exists s' objectId)"
proof -
  let ?ids = "readdirSync (disk s) (dataDir s)"
  have "distinct ?ids"
    using assms(1) by (rule readdirSync_distinct)
  moreover have "\<forall>i\<in>set ?ids. exists s i"
    using readdirSync_exists by blast
  ultimately obtain s1 where s1: "startupFiles sniff supportedObjects s ?ids = Ok s1"
    "dataDir s1 = dataDir s"
    "contentSizeSum s1
       = contentSizeSum s + sum_list (map (countedSize supportedObjects s) ?ids)"
    "\<forall>i. map_of (disk s1) (path s i)
           = (if i \<in> set ?ids \<and> \<not> sizeAgrees supportedObjects s i then None
              else map_of (disk s) (path s i))"
    using startupFiles_result [of ?ids s sniff supportedObjects] returns by auto
  let ?s' = "startupCacheItems s1 (getCachedObjectsIds (stateCache s))"
  have run: "startupInit sniff (Inr supportedObjects) s = Ok ?s'"
    using s1(1) by (simp add: startupInit_def)
  have frame: "disk ?s' = disk s1" "contentSizeSum ?s' = contentSizeSum s1"
    by simp_all
  have gone: "\<not> exists ?s' i" if "i \<in> set ?ids" "\<not> sizeAgrees supportedObjects s i" for i
    using that s1(4) [rule_format, of i] s1(2) frame(1)
    by (simp add: exists_iff path_def)
  show ?thesis
    using run frame(2) s1(3) gone by (auto simp: usedSpace_def)
qed

end
